theory Spec2Isabelle
  imports Main
begin

section \<open>The web controller of the robotic arm (app.js)\<close>

text \<open>
  The page keeps a handful of module-level variables: the handles of the BLE connection
  (\<open>device\<close>, \<open>server\<close>, \<open>service\<close>, \<open>rxCharacteristic\<close>, each \<open>null\<close> or an object)
  and the object \<open>jointAngles\<close> with one number per joint. They are the fields of the
  record \<open>controller\<close>. Two more fields record what the program does to the outside:
  \<open>console\<close> holds the entries \<open>addLog\<close> appends (message and type; the time stamp is
  left out), and \<open>writes\<close> holds the argument of every call of
  \<open>rxCharacteristic.writeValue\<close>, in order. The rest of the DOM (button states, the
  angle labels, the status text) is not modelled.

  The angles start as integers and change only by \<open>Math.min\<close>, \<open>Math.max\<close>, adding or
  subtracting 10 and storing 90, so they are integers throughout: type \<open>int\<close>.
\<close>

subsection \<open>Data\<close>

datatype joint = Base | Shoulder | Elbow | Wrist | Gripper

record joint_angles =
  base :: int
  shoulder :: int
  elbow :: int
  wrist :: int
  gripper :: int

datatype severity = Info | Success | Error | Warning

record controller =
  device :: "string option"
  gatt_connected :: bool
  server :: bool
  service :: bool
  rxCharacteristic :: bool
  jointAngles :: joint_angles
  console :: "(string \<times> severity) list"
  writes :: "string list"

text \<open>The values of the variables when the script has been loaded (lines 6-22).\<close>

definition initialAngles :: joint_angles where
  "initialAngles = \<lparr>base = 90, shoulder = 130, elbow = 90, wrist = 90, gripper = 90\<rparr>"

definition initial :: controller where
  "initial = \<lparr>device = None, gatt_connected = False, server = False, service = False,
     rxCharacteristic = False, jointAngles = initialAngles, console = [], writes = []\<rparr>"

text \<open>\<open>commandMap\<close> (lines 25-36), an object literal: its keys are the ten tokens.\<close>

definition commandMap :: "(string \<times> string) list" where
  "commandMap =
    [(''A'', ''base-inc''), (''B'', ''base-dec''),
     (''C'', ''shoulder-inc''), (''D'', ''shoulder-dec''),
     (''E'', ''elbow-inc''), (''F'', ''elbow-dec''),
     (''G'', ''wrist-inc''), (''H'', ''wrist-dec''),
     (''I'', ''gripper-inc''), (''J'', ''gripper-dec'')]"

definition tokens :: "string list" where
  "tokens = map fst commandMap"

subsection \<open>Utility functions\<close>

definition addLog :: "string \<Rightarrow> severity \<Rightarrow> controller \<Rightarrow> controller" where
  "addLog message type s = s\<lparr>console := console s @ [(message, type)]\<rparr>"

fun get_angle :: "joint \<Rightarrow> joint_angles \<Rightarrow> int" where
  "get_angle Base a = base a"
| "get_angle Shoulder a = shoulder a"
| "get_angle Elbow a = elbow a"
| "get_angle Wrist a = wrist a"
| "get_angle Gripper a = gripper a"

fun set_angle :: "joint \<Rightarrow> int \<Rightarrow> joint_angles \<Rightarrow> joint_angles" where
  "set_angle Base v a = a\<lparr>base := v\<rparr>"
| "set_angle Shoulder v a = a\<lparr>shoulder := v\<rparr>"
| "set_angle Elbow v a = a\<lparr>elbow := v\<rparr>"
| "set_angle Wrist v a = a\<lparr>wrist := v\<rparr>"
| "set_angle Gripper v a = a\<lparr>gripper := v\<rparr>"

text \<open>\<open>updateAngleDisplay(joint, angle)\<close>: \<open>jointAngles[joint] = angle\<close> (the label is DOM).\<close>

definition updateAngleDisplay :: "joint \<Rightarrow> int \<Rightarrow> controller \<Rightarrow> controller" where
  "updateAngleDisplay j angle s = s\<lparr>jointAngles := set_angle j angle (jointAngles s)\<rparr>"

text \<open>\<open>updateConnectionStatus(connected)\<close>: one log line; the rest is DOM.\<close>

definition updateConnectionStatus :: "bool \<Rightarrow> controller \<Rightarrow> controller" where
  "updateConnectionStatus connected s =
     (if connected then addLog ''Connected to BLE device'' Success s
      else addLog ''Disconnected from BLE device'' Info s)"

subsection \<open>BLE communication\<close>

text \<open>
  \<open>updateLocalAngle(command)\<close>: a \<open>switch\<close> on the command string with ten cases and no
  default.
\<close>

definition updateLocalAngle :: "string \<Rightarrow> controller \<Rightarrow> controller" where
  "updateLocalAngle command s =
     (let stepSize = 10 in
      if command = ''A'' then updateAngleDisplay Base (min (base (jointAngles s) + stepSize) 180) s
      else if command = ''B'' then updateAngleDisplay Base (max (base (jointAngles s) - stepSize) 0) s
      else if command = ''C'' then updateAngleDisplay Shoulder (min (shoulder (jointAngles s) + stepSize) 210) s
      else if command = ''D'' then updateAngleDisplay Shoulder (max (shoulder (jointAngles s) - stepSize) 120) s
      else if command = ''E'' then updateAngleDisplay Elbow (min (elbow (jointAngles s) + stepSize) 180) s
      else if command = ''F'' then updateAngleDisplay Elbow (max (elbow (jointAngles s) - stepSize) 0) s
      else if command = ''G'' then updateAngleDisplay Wrist (min (wrist (jointAngles s) + stepSize) 180) s
      else if command = ''H'' then updateAngleDisplay Wrist (max (wrist (jointAngles s) - stepSize) 0) s
      else if command = ''I'' then updateAngleDisplay Gripper (min (gripper (jointAngles s) + stepSize) 180) s
      else if command = ''J'' then updateAngleDisplay Gripper (max (gripper (jointAngles s) - stepSize) 0) s
      else s)"

text \<open>
  \<open>sendCommand(command)\<close>. What \<open>await rxCharacteristic.writeValue(data)\<close> does is the
  transport's choice, so it is an argument: the write is accepted, or it throws an error
  with a message. \<open>TextEncoder.encode\<close> gives the UTF-8 bytes of the command, which is
  what a \<open>string\<close> is here. The function has no \<open>return\<close> with a value and its
  \<open>catch\<close> does not throw again, so the promise it returns is always fulfilled:
  the first component of the result says how the call completed.
\<close>

datatype write_result = WriteOk | WriteError string

datatype completion = Returns | Throws string

definition sendCommand :: "write_result \<Rightarrow> string \<Rightarrow> controller \<Rightarrow> completion \<times> controller" where
  "sendCommand w command s =
     (if device s = None \<or> \<not> rxCharacteristic s
      then (Returns, addLog ''Error: Device not connected'' Error s)
      else
        let s1 = s\<lparr>writes := writes s @ [command]\<rparr> in
        case w of
          WriteOk \<Rightarrow>
            (Returns, updateLocalAngle command (addLog (''Sent command: '' @ command) Success s1))
        | WriteError msg \<Rightarrow>
            (Returns, addLog (''Error sending command: '' @ msg) Error s1))"

text \<open>
  \<open>connectDevice()\<close>: four awaited calls in a \<open>try\<close>, each of which may throw. The
  argument says how far the attempt gets: which call throws (with its message, after
  \<open>requestDevice\<close> also the name of the device found), or that all succeed.
\<close>

datatype connect_result =
  RequestDeviceFails string
| GattConnectFails string string
| GetServiceFails string string
| GetCharacteristicFails string string
| Connects string

definition connect_failed :: "string \<Rightarrow> controller \<Rightarrow> controller" where
  "connect_failed msg s = updateConnectionStatus False (addLog (''Connection error: '' @ msg) Error s)"

definition found_device :: "string \<Rightarrow> controller \<Rightarrow> controller" where
  "found_device name s = addLog (''Found device: '' @ name) Info (s\<lparr>device := Some name\<rparr>)"

definition gatt_up :: "controller \<Rightarrow> controller" where
  "gatt_up s = addLog ''Connected to GATT server'' Success (s\<lparr>gatt_connected := True, server := True\<rparr>)"

definition service_found :: "controller \<Rightarrow> controller" where
  "service_found s = addLog ''Found Nordic UART service'' Success (s\<lparr>service := True\<rparr>)"

definition characteristic_found :: "controller \<Rightarrow> controller" where
  "characteristic_found s = addLog ''Found RX characteristic'' Success (s\<lparr>rxCharacteristic := True\<rparr>)"

definition connectDevice :: "connect_result \<Rightarrow> controller \<Rightarrow> controller" where
  "connectDevice r s =
     (let s0 = addLog ''Scanning for BLE devices...'' Info s in
      case r of
        RequestDeviceFails msg \<Rightarrow> connect_failed msg s0
      | GattConnectFails name msg \<Rightarrow> connect_failed msg (found_device name s0)
      | GetServiceFails name msg \<Rightarrow> connect_failed msg (gatt_up (found_device name s0))
      | GetCharacteristicFails name msg \<Rightarrow>
          connect_failed msg (service_found (gatt_up (found_device name s0)))
      | Connects name \<Rightarrow>
          updateConnectionStatus True
            (characteristic_found (service_found (gatt_up (found_device name s0)))))"

text \<open>
  \<open>disconnectDevice()\<close> asks the device to disconnect (\<open>device.gatt.disconnect()\<close>,
  taken not to throw); the variables are cleared by \<open>onDisconnected()\<close>, the handler of
  the device's \<open>gattserverdisconnected\<close> event, whether the link went down on request
  or by itself.
\<close>

definition disconnectDevice :: "controller \<Rightarrow> controller" where
  "disconnectDevice s =
     (if device s \<noteq> None \<and> gatt_connected s
      then addLog ''Disconnecting from device...'' Info (s\<lparr>gatt_connected := False\<rparr>)
      else s)"

definition onDisconnected :: "controller \<Rightarrow> controller" where
  "onDisconnected s =
     updateConnectionStatus False
       (s\<lparr>device := None, server := False, service := False, rxCharacteristic := False\<rparr>)"

subsection \<open>Preset positions\<close>

text \<open>
  A preset sends its commands one by one, awaiting \<open>sendCommand\<close> and then a timer.
  What the outside does during the \<open>k\<close>-th of these steps is given by \<open>env k\<close>: the
  result of the write, if one is made, and whether the link is lost while the preset
  waits for the timer, in which case \<open>onDisconnected\<close> runs before the next step.
\<close>

record step_env =
  outcome :: write_result
  lost :: bool

definition delay :: "step_env \<Rightarrow> controller \<Rightarrow> controller" where
  "delay e s = (if lost e then onDisconnected s else s)"

definition send_and_wait :: "step_env \<Rightarrow> string \<Rightarrow> controller \<Rightarrow> controller" where
  "send_and_wait e command s = delay e (snd (sendCommand (outcome e) command s))"

text \<open>The loop \<open>for (const cmd of commands)\<close> of \<open>moveToHome\<close>, from step \<open>k\<close> on.\<close>

fun for_commands :: "(nat \<Rightarrow> step_env) \<Rightarrow> nat \<Rightarrow> string list \<Rightarrow> controller \<Rightarrow> controller" where
  "for_commands env k [] s = s"
| "for_commands env k (c # cs) s = for_commands env (Suc k) cs (send_and_wait (env k) c s)"

definition home_commands :: "string list" where
  "home_commands =
    [''B'', ''B'', ''B'', ''B'', ''B'', ''D'', ''D'', ''D'', ''D'', ''D'',
     ''F'', ''F'', ''F'', ''F'', ''F'', ''H'', ''H'', ''H'', ''H'', ''H'',
     ''J'', ''J'', ''J'', ''J'', ''J'']"

definition moveToHome :: "(nat \<Rightarrow> step_env) \<Rightarrow> controller \<Rightarrow> controller" where
  "moveToHome env s =
     addLog ''Reached HOME position'' Success
       (updateAngleDisplay Gripper 90
         (updateAngleDisplay Wrist 90
           (updateAngleDisplay Elbow 90
             (updateAngleDisplay Shoulder 90
               (updateAngleDisplay Base 90
                 (for_commands env 0 home_commands
                   (addLog ''Moving to HOME position...'' Info s)))))))"

text \<open>
  \<open>moveToGrab\<close> and \<open>moveToReach\<close> run two nested loops over a list of
  \<open>{cmd, count, desc}\<close>: the inner one sends \<open>cmd\<close> \<open>count\<close> times.
\<close>

record seq_step =
  cmd :: string
  count :: nat
  desc :: string

fun repeat_send :: "(nat \<Rightarrow> step_env) \<Rightarrow> nat \<Rightarrow> string \<Rightarrow> nat \<Rightarrow> controller \<Rightarrow> controller" where
  "repeat_send env k c 0 s = s"
| "repeat_send env k c (Suc n) s = repeat_send env (Suc k) c n (send_and_wait (env k) c s)"

fun for_sequence :: "(nat \<Rightarrow> step_env) \<Rightarrow> nat \<Rightarrow> seq_step list \<Rightarrow> controller \<Rightarrow> controller" where
  "for_sequence env k [] s = s"
| "for_sequence env k (st # rest) s =
     for_sequence env (k + count st) rest (repeat_send env k (cmd st) (count st) s)"

definition grab_sequence :: "seq_step list" where
  "grab_sequence =
    [\<lparr>cmd = ''D'', count = 3, desc = ''Lower shoulder''\<rparr>,
     \<lparr>cmd = ''E'', count = 2, desc = ''Extend elbow''\<rparr>,
     \<lparr>cmd = ''J'', count = 5, desc = ''Close gripper''\<rparr>]"

definition moveToGrab :: "(nat \<Rightarrow> step_env) \<Rightarrow> controller \<Rightarrow> controller" where
  "moveToGrab env s =
     addLog ''Reached GRAB position'' Success
       (for_sequence env 0 grab_sequence (addLog ''Moving to GRAB position...'' Info s))"

definition reach_sequence :: "seq_step list" where
  "reach_sequence =
    [\<lparr>cmd = ''C'', count = 4, desc = ''Raise shoulder''\<rparr>,
     \<lparr>cmd = ''E'', count = 3, desc = ''Extend elbow''\<rparr>,
     \<lparr>cmd = ''G'', count = 2, desc = ''Raise wrist''\<rparr>,
     \<lparr>cmd = ''I'', count = 3, desc = ''Open gripper''\<rparr>]"

definition moveToReach :: "(nat \<Rightarrow> step_env) \<Rightarrow> controller \<Rightarrow> controller" where
  "moveToReach env s =
     addLog ''Reached REACH position'' Success
       (for_sequence env 0 reach_sequence (addLog ''Moving to REACH position...'' Info s))"

definition resetAll :: "(nat \<Rightarrow> step_env) \<Rightarrow> controller \<Rightarrow> controller" where
  "resetAll env s = moveToHome env (addLog ''Resetting all joints...'' Info s)"

subsection \<open>Event listeners\<close>

text \<open>
  The \<open>keydown\<close> listener (lines 368-388): \<open>keyMap\<close> sends the letters a to j, in either
  case, to the tokens. The test \<open>event.key in keyMap\<close> holds for the twenty keys of the
  literal and also for the names of the properties that the object inherits from
  \<open>Object.prototype\<close>. For such a name \<open>keyMap[event.key]\<close> is the inherited value, a
  function (for \<open>__proto__\<close> the prototype object), and \<open>sendCommand\<close> is called with it:
  \<open>TextEncoder.encode\<close> and the log line turn it into its text, and no case of the
  \<open>switch\<close> in \<open>updateLocalAngle\<close> is equal to it. The model passes this text, written
  the way the engines print a native function; it is never a token. A keyboard's
  \<open>event.key\<close> is a printable character or the name of a key (\<open>Enter\<close>, \<open>Shift\<close>, ...),
  so these names do not come from a keyboard. Any other key is dropped without a word.
\<close>

definition keyMap :: "(string \<times> string) list" where
  "keyMap =
    [(''a'', ''A''), (''A'', ''A''), (''b'', ''B''), (''B'', ''B''),
     (''c'', ''C''), (''C'', ''C''), (''d'', ''D''), (''D'', ''D''),
     (''e'', ''E''), (''E'', ''E''), (''f'', ''F''), (''F'', ''F''),
     (''g'', ''G''), (''G'', ''G''), (''h'', ''H''), (''H'', ''H''),
     (''i'', ''I''), (''I'', ''I''), (''j'', ''J''), (''J'', ''J'')]"

definition object_prototype_names :: "string list" where
  "object_prototype_names =
    [''constructor'', ''__defineGetter__'', ''__defineSetter__'', ''hasOwnProperty'',
     ''__lookupGetter__'', ''__lookupSetter__'', ''isPrototypeOf'', ''propertyIsEnumerable'',
     ''toString'', ''valueOf'', ''__proto__'', ''toLocaleString'']"

definition inherited_text :: "string \<Rightarrow> string" where
  "inherited_text name =
     (if name = ''__proto__'' then ''[object Object]''
      else if name = ''constructor'' then ''function Object() { [native code] }''
      else ''function '' @ name @ ''() { [native code] }'')"

definition keydown :: "write_result \<Rightarrow> string \<Rightarrow> controller \<Rightarrow> controller" where
  "keydown w key s =
     (if device s = None \<or> \<not> rxCharacteristic s then s
      else case map_of keyMap key of
             Some command \<Rightarrow> snd (sendCommand w command s)
           | None \<Rightarrow>
               if key \<in> set object_prototype_names
               then snd (sendCommand w (inherited_text key) s)
               else s)"

text \<open>
  Everything the page reacts to: a click on a joint button (whose \<open>data-command\<close>
  attribute is the command), a key, the four preset buttons, the two connection buttons
  and the device's disconnection event.
\<close>

datatype action =
  ClickJoint string write_result
| KeyDown string write_result
| PresetHome "nat \<Rightarrow> step_env"
| PresetGrab "nat \<Rightarrow> step_env"
| PresetReach "nat \<Rightarrow> step_env"
| PresetReset "nat \<Rightarrow> step_env"
| ClickConnect connect_result
| ClickDisconnect
| GattServerDisconnected

fun perform :: "action \<Rightarrow> controller \<Rightarrow> controller" where
  "perform (ClickJoint command w) s = snd (sendCommand w command s)"
| "perform (KeyDown key w) s = keydown w key s"
| "perform (PresetHome env) s = moveToHome env s"
| "perform (PresetGrab env) s = moveToGrab env s"
| "perform (PresetReach env) s = moveToReach env s"
| "perform (PresetReset env) s = resetAll env s"
| "perform (ClickConnect r) s = connectDevice r s"
| "perform ClickDisconnect s = disconnectDevice s"
| "perform GattServerDisconnected s = onDisconnected s"

fun run :: "action list \<Rightarrow> controller \<Rightarrow> controller" where
  "run [] s = s"
| "run (a # as) s = run as (perform a s)"

subsection \<open>The bounds of the joints\<close>

text \<open>
  The limits that \<open>updateLocalAngle\<close> clamps to, as a table per joint, and the two-sided
  clamp the specification speaks of.
\<close>

fun minBound :: "joint \<Rightarrow> int" where
  "minBound Shoulder = 120"
| "minBound _ = 0"

fun maxBound :: "joint \<Rightarrow> int" where
  "maxBound Shoulder = 210"
| "maxBound _ = 180"

definition clamp :: "int \<Rightarrow> int \<Rightarrow> int \<Rightarrow> int" where
  "clamp x lo hi = max lo (min x hi)"

definition within_bounds :: "joint_angles \<Rightarrow> bool" where
  "within_bounds a =
     (list_all (\<lambda>j. minBound j \<le> get_angle j a \<and> get_angle j a \<le> maxBound j)
        [Base, Shoulder, Elbow, Wrist, Gripper])"

subsection \<open>The token table of the specification\<close>

text \<open>
  Section 6 of the specification: each token with its joint and its direction
  (\<open>1\<close> for an increment, \<open>-1\<close> for a decrement); the step is 10 degrees.
\<close>

definition token_table :: "(string \<times> joint \<times> int) list" where
  "token_table =
    [(''A'', Base, 1), (''B'', Base, -1),
     (''C'', Shoulder, 1), (''D'', Shoulder, -1),
     (''E'', Elbow, 1), (''F'', Elbow, -1),
     (''G'', Wrist, 1), (''H'', Wrist, -1),
     (''I'', Gripper, 1), (''J'', Gripper, -1)]"

subsection \<open>Some states and environments\<close>

text \<open>The controller after a successful connection from the initial state.\<close>

definition linked :: controller where
  "linked = connectDevice (Connects ''RoboticArm-BLE'') initial"

text \<open>Three environments of a preset: nothing goes wrong; the first write is rejected;
  the link is lost while the preset waits after its step \<open>n\<close>.\<close>

definition calm :: "nat \<Rightarrow> step_env" where
  "calm k = \<lparr>outcome = WriteOk, lost = False\<rparr>"

definition first_write_fails :: "nat \<Rightarrow> step_env" where
  "first_write_fails k =
     \<lparr>outcome = (if k = 0 then WriteError ''GATT operation failed'' else WriteOk), lost = False\<rparr>"


subsection \<open>What a preset sends\<close>

text \<open>The commands of a sequence of \<open>{cmd, count}\<close> steps, written out one by one.\<close>

fun expand :: "seq_step list \<Rightarrow> string list" where
  "expand [] = []"
| "expand (st # rest) = replicate (count st) (cmd st) @ expand rest"

text \<open>Of the commands sent from step \<open>k\<close> on, those whose write the transport accepts.\<close>

fun accepted :: "(nat \<Rightarrow> step_env) \<Rightarrow> nat \<Rightarrow> string list \<Rightarrow> string list" where
  "accepted env k [] = []"
| "accepted env k (c # cs) =
     (if outcome (env k) = WriteOk then c # accepted env (Suc k) cs else accepted env (Suc k) cs)"

text \<open>
  The entry that \<open>sendCommand\<close> logs for a command on a connected controller, by the
  result of the write, and the entries of the commands sent from step \<open>k\<close> on.
\<close>

fun log_entry :: "write_result \<Rightarrow> string \<Rightarrow> string \<times> severity" where
  "log_entry WriteOk c = (''Sent command: '' @ c, Success)"
| "log_entry (WriteError msg) c = (''Error sending command: '' @ msg, Error)"

fun sent_log :: "(nat \<Rightarrow> step_env) \<Rightarrow> nat \<Rightarrow> string list \<Rightarrow> (string \<times> severity) list" where
  "sent_log env k [] = []"
| "sent_log env k (c # cs) = log_entry (outcome (env k)) c # sent_log env (Suc k) cs"

text \<open>Applying a list of tokens to the joint model, first to last.\<close>

fun apply_all :: "string list \<Rightarrow> controller \<Rightarrow> controller" where
  "apply_all [] s = s"
| "apply_all (c # cs) s = apply_all cs (updateLocalAngle c s)"

text \<open>The actions that run the Home sequence.\<close>

fun runs_home :: "action \<Rightarrow> bool" where
  "runs_home (PresetHome env) = True"
| "runs_home (PresetReset env) = True"
| "runs_home _ = False"

text \<open>The bounds with the shoulder's lower limit lowered to the 90 that Home stores.\<close>

definition within_home_bounds :: "joint_angles \<Rightarrow> bool" where
  "within_home_bounds a =
     (list_all (\<lambda>j. min 90 (minBound j) \<le> get_angle j a \<and> get_angle j a \<le> maxBound j)
        [Base, Shoulder, Elbow, Wrist, Gripper])"

section \<open>Properties\<close>

subsection \<open>What each function leaves alone\<close>

lemma addLog_fields [simp]:
  "device (addLog m t s) = device s"
  "gatt_connected (addLog m t s) = gatt_connected s"
  "server (addLog m t s) = server s"
  "service (addLog m t s) = service s"
  "rxCharacteristic (addLog m t s) = rxCharacteristic s"
  "jointAngles (addLog m t s) = jointAngles s"
  "writes (addLog m t s) = writes s"
  "console (addLog m t s) = console s @ [(m, t)]"
  by (simp_all add: addLog_def)

lemma updateAngleDisplay_fields [simp]:
  "device (updateAngleDisplay j v s) = device s"
  "gatt_connected (updateAngleDisplay j v s) = gatt_connected s"
  "server (updateAngleDisplay j v s) = server s"
  "service (updateAngleDisplay j v s) = service s"
  "rxCharacteristic (updateAngleDisplay j v s) = rxCharacteristic s"
  "jointAngles (updateAngleDisplay j v s) = set_angle j v (jointAngles s)"
  "writes (updateAngleDisplay j v s) = writes s"
  "console (updateAngleDisplay j v s) = console s"
  by (simp_all add: updateAngleDisplay_def)

lemma updateLocalAngle_fields [simp]:
  "device (updateLocalAngle c s) = device s"
  "gatt_connected (updateLocalAngle c s) = gatt_connected s"
  "server (updateLocalAngle c s) = server s"
  "service (updateLocalAngle c s) = service s"
  "rxCharacteristic (updateLocalAngle c s) = rxCharacteristic s"
  "writes (updateLocalAngle c s) = writes s"
  "console (updateLocalAngle c s) = console s"
  by (simp_all add: updateLocalAngle_def)

lemma set_tokens:
  "set tokens = {''A'', ''B'', ''C'', ''D'', ''E'', ''F'', ''G'', ''H'', ''I'', ''J''}"
  by (simp add: tokens_def commandMap_def)

lemma updateLocalAngle_other: "c \<notin> set tokens \<Longrightarrow> updateLocalAngle c s = s"
  by (simp add: set_tokens updateLocalAngle_def)

subsection \<open>Decrementing the base to its lower limit\<close>

lemma updateLocalAngle_B_base:
  "base (jointAngles (updateLocalAngle ''B'' s)) = max (base (jointAngles s) - 10) 0"
  by (simp add: updateLocalAngle_def)

lemma funpow_B_base:
  "0 \<le> base (jointAngles s) \<Longrightarrow>
   base (jointAngles ((updateLocalAngle ''B'' ^^ n) s)) = max (base (jointAngles s) - 10 * int n) 0"
  by (induction n) (auto simp: updateLocalAngle_B_base)

text \<open>
  C9. From a base angle of 90, a hundred applications of the token \<open>B\<close> leave the base
  at exactly 0, any number of further applications keep it at 0, and the angle is never
  negative on the way.
\<close>

theorem base_decrement_100:
  "base (jointAngles s) = 90 \<Longrightarrow>
   base (jointAngles ((updateLocalAngle ''B'' ^^ 100) s)) = 0 \<and>
   (\<forall>n. base (jointAngles ((updateLocalAngle ''B'' ^^ (100 + n)) s)) = 0) \<and>
   (\<forall>n. 0 \<le> base (jointAngles ((updateLocalAngle ''B'' ^^ n) s)))"
  by (simp add: funpow_B_base)

theorem base_decrement_100_witness:
  "base (jointAngles initial) = 90 \<and>
   base (jointAngles ((updateLocalAngle ''B'' ^^ 100) initial)) = 0 \<and>
   base (jointAngles ((updateLocalAngle ''B'' ^^ 101) initial)) = 0 \<and>
   0 \<le> base (jointAngles ((updateLocalAngle ''B'' ^^ 3) initial))"
proof -
  have h: "base (jointAngles initial) = 90" by (simp add: initial_def initialAngles_def)
  from base_decrement_100 [OF h] have
    "base (jointAngles ((updateLocalAngle ''B'' ^^ 100) initial)) = 0"
    "base (jointAngles ((updateLocalAngle ''B'' ^^ (100 + 1)) initial)) = 0"
    "0 \<le> base (jointAngles ((updateLocalAngle ''B'' ^^ 3) initial))"
    by blast+
  with h show ?thesis by simp
qed

subsection \<open>One call of sendCommand\<close>

lemma sendCommand_not_connected:
  "device s = None \<or> \<not> rxCharacteristic s \<Longrightarrow>
   sendCommand w c s = (Returns, addLog ''Error: Device not connected'' Error s)"
  by (auto simp: sendCommand_def)

lemma sendCommand_ok:
  "device s \<noteq> None \<Longrightarrow> rxCharacteristic s \<Longrightarrow>
   sendCommand WriteOk c s =
     (Returns, updateLocalAngle c (addLog (''Sent command: '' @ c) Success (s\<lparr>writes := writes s @ [c]\<rparr>)))"
  by (auto simp: sendCommand_def)

lemma sendCommand_error:
  "device s \<noteq> None \<Longrightarrow> rxCharacteristic s \<Longrightarrow>
   sendCommand (WriteError msg) c s =
     (Returns, addLog (''Error sending command: '' @ msg) Error (s\<lparr>writes := writes s @ [c]\<rparr>))"
  by (auto simp: sendCommand_def)

lemma linked_fields:
  "device linked = Some ''RoboticArm-BLE''" "rxCharacteristic linked"
  "jointAngles linked = initialAngles" "writes linked = []"
  by (simp_all add: linked_def connectDevice_def updateConnectionStatus_def characteristic_found_def
      service_found_def gatt_up_def found_device_def initial_def)

text \<open>
  C7 (as amended). While the controller is not connected (\<open>device\<close> or
  \<open>rxCharacteristic\<close> is \<open>null\<close>), \<open>sendCommand\<close> of any token, whatever the transport
  would answer, logs \<open>Error: Device not connected\<close> with type error and returns
  normally: no error reaches the caller. That log entry is the one change of the state:
  nothing is written to the transport and the joint model is as before.
\<close>

theorem dispatch_not_connected:
  "device s = None \<or> \<not> rxCharacteristic s \<Longrightarrow>
   sendCommand w token s =
     (Returns, s\<lparr>console := console s @ [(''Error: Device not connected'', Error)]\<rparr>) \<and>
   writes (snd (sendCommand w token s)) = writes s \<and>
   jointAngles (snd (sendCommand w token s)) = jointAngles s"
  by (simp add: sendCommand_not_connected addLog_def)

theorem dispatch_not_connected_witness:
  "device initial = None \<and> base (jointAngles initial) = 90 \<and>
   fst (sendCommand WriteOk ''A'' initial) = Returns \<and>
   writes (snd (sendCommand WriteOk ''A'' initial)) = [] \<and>
   base (jointAngles (snd (sendCommand WriteOk ''A'' initial))) = 90 \<and>
   console (snd (sendCommand WriteOk ''A'' initial)) = [(''Error: Device not connected'', Error)]"
proof -
  have h: "device initial = None \<or> \<not> rxCharacteristic initial" by (simp add: initial_def)
  from dispatch_not_connected [OF h, of WriteOk "''A''"] show ?thesis
    by (simp add: initial_def initialAngles_def)
qed

text \<open>
  The claim as stated fails: on the initial, disconnected controller the call for \<open>A\<close>
  does not fail with an error; it completes exactly as the same call does on a
  connected controller, where the command is sent.
\<close>

theorem dispatch_not_connected_returns:
  "device initial = None \<and>
   fst (sendCommand WriteOk ''A'' initial) = Returns \<and>
   writes (snd (sendCommand WriteOk ''A'' linked)) = [''A''] \<and>
   fst (sendCommand WriteOk ''A'' initial) = fst (sendCommand WriteOk ''A'' linked)"
  by (simp add: sendCommand_def linked_fields initial_def)

text \<open>
  C5 (as amended). When the controller is connected and the transport rejects the write,
  \<open>sendCommand\<close> leaves the joint model unchanged and reports the error in the log, as
  \<open>Error sending command:\<close> followed by the transport's message, with type error. The
  call itself returns normally: the \<open>catch\<close> block keeps the error, so the caller of
  \<open>sendCommand\<close> does not receive it.
\<close>

theorem send_failure_logged:
  "device s \<noteq> None \<Longrightarrow> rxCharacteristic s \<Longrightarrow>
   sendCommand (WriteError msg) token s =
     (Returns, s\<lparr>writes := writes s @ [token],
                  console := console s @ [(''Error sending command: '' @ msg, Error)]\<rparr>) \<and>
   jointAngles (snd (sendCommand (WriteError msg) token s)) = jointAngles s"
  by (simp add: sendCommand_error addLog_def)

theorem send_failure_logged_witness:
  "base (jointAngles linked) = 90 \<and>
   base (jointAngles (snd (sendCommand (WriteError ''GATT operation failed'') ''A'' linked))) = 90 \<and>
   fst (sendCommand (WriteError ''GATT operation failed'') ''A'' linked) = Returns"
  using send_failure_logged [of linked "''GATT operation failed''" "''A''"]
  by (simp add: linked_fields initialAngles_def)

text \<open>
  The claim as stated fails: with the base at 90 and a rejected write of \<open>A\<close>, the
  call completes exactly as a successful one does, so nothing reaches its caller.
\<close>

theorem send_failure_not_surfaced:
  "fst (sendCommand (WriteError ''GATT operation failed'') ''A'' linked) = Returns \<and>
   fst (sendCommand (WriteError ''GATT operation failed'') ''A'' linked) =
   fst (sendCommand WriteOk ''A'' linked)"
  by (simp add: sendCommand_def linked_fields)

text \<open>
  C10. A command that is not one of the ten tokens leaves every joint's angle as it is
  in \<open>updateLocalAngle\<close> (indeed the whole state), while \<open>sendCommand\<close> of such a command
  on a connected controller still hands its bytes to the transport; when the write is
  accepted, the command is logged as sent and the update that follows changes nothing.
\<close>

theorem unknown_command_sent:
  "command \<notin> set tokens \<Longrightarrow>
   updateLocalAngle command s = s \<and>
   (device s \<noteq> None \<and> rxCharacteristic s \<longrightarrow>
      writes (snd (sendCommand w command s)) = writes s @ [command] \<and>
      jointAngles (snd (sendCommand w command s)) = jointAngles s \<and>
      snd (sendCommand WriteOk command s) =
        addLog (''Sent command: '' @ command) Success (s\<lparr>writes := writes s @ [command]\<rparr>))"
  by (cases w) (auto simp: sendCommand_def updateLocalAngle_other)

theorem unknown_command_sent_witness:
  "''Z'' \<notin> set tokens \<and> updateLocalAngle ''Z'' linked = linked \<and>
   writes (snd (sendCommand WriteOk ''Z'' linked)) = [''Z''] \<and>
   jointAngles (snd (sendCommand WriteOk ''Z'' linked)) = initialAngles"
proof -
  have h: "''Z'' \<notin> set tokens" by (simp add: set_tokens)
  from unknown_command_sent [OF h, of linked WriteOk] h show ?thesis
    by (simp add: linked_fields)
qed

subsection \<open>Keys and tokens\<close>








subsection \<open>The tokens and the clamp\<close>

lemma updateLocalAngle_token:
  "updateLocalAngle ''A'' s = updateAngleDisplay Base (min (base (jointAngles s) + 10) 180) s"
  "updateLocalAngle ''B'' s = updateAngleDisplay Base (max (base (jointAngles s) - 10) 0) s"
  "updateLocalAngle ''C'' s = updateAngleDisplay Shoulder (min (shoulder (jointAngles s) + 10) 210) s"
  "updateLocalAngle ''D'' s = updateAngleDisplay Shoulder (max (shoulder (jointAngles s) - 10) 120) s"
  "updateLocalAngle ''E'' s = updateAngleDisplay Elbow (min (elbow (jointAngles s) + 10) 180) s"
  "updateLocalAngle ''F'' s = updateAngleDisplay Elbow (max (elbow (jointAngles s) - 10) 0) s"
  "updateLocalAngle ''G'' s = updateAngleDisplay Wrist (min (wrist (jointAngles s) + 10) 180) s"
  "updateLocalAngle ''H'' s = updateAngleDisplay Wrist (max (wrist (jointAngles s) - 10) 0) s"
  "updateLocalAngle ''I'' s = updateAngleDisplay Gripper (min (gripper (jointAngles s) + 10) 180) s"
  "updateLocalAngle ''J'' s = updateAngleDisplay Gripper (max (gripper (jointAngles s) - 10) 0) s"
  by (simp_all add: updateLocalAngle_def)

lemma token_table_cases:
  "(token, j, d) \<in> set token_table \<Longrightarrow>
     token = ''A'' \<and> j = Base \<and> d = 1 \<or> token = ''B'' \<and> j = Base \<and> d = -1 \<or>
     token = ''C'' \<and> j = Shoulder \<and> d = 1 \<or> token = ''D'' \<and> j = Shoulder \<and> d = -1 \<or>
     token = ''E'' \<and> j = Elbow \<and> d = 1 \<or> token = ''F'' \<and> j = Elbow \<and> d = -1 \<or>
     token = ''G'' \<and> j = Wrist \<and> d = 1 \<or> token = ''H'' \<and> j = Wrist \<and> d = -1 \<or>
     token = ''I'' \<and> j = Gripper \<and> d = 1 \<or> token = ''J'' \<and> j = Gripper \<and> d = -1"
  by (simp add: token_table_def)

lemma onDisconnected_fields [simp]:
  "device (onDisconnected s) = None"
  "rxCharacteristic (onDisconnected s) = False"
  "server (onDisconnected s) = False"
  "service (onDisconnected s) = False"
  "gatt_connected (onDisconnected s) = gatt_connected s"
  "jointAngles (onDisconnected s) = jointAngles s"
  "writes (onDisconnected s) = writes s"
  "console (onDisconnected s) = console s @ [(''Disconnected from BLE device'', Info)]"
  by (simp_all add: onDisconnected_def updateConnectionStatus_def)

lemma moveToHome_angles:
  "jointAngles (moveToHome env s) = \<lparr>base = 90, shoulder = 90, elbow = 90, wrist = 90, gripper = 90\<rparr>"
  by (simp add: moveToHome_def)

text \<open>
  C8 (as amended). Each of the ten tokens changes the joint the table gives it and
  nothing else. The first token of a pair stores \<open>min (angle + 10) max\<close>, the second
  \<open>max (angle - 10) min\<close>: the clamp has one side. Where the joint's angle is within
  its bounds before the call, this is the angle plus or minus 10 clamped to
  \<open>[min, max]\<close>.
\<close>

theorem token_update:
  "(token, j, d) \<in> set token_table \<Longrightarrow>
   updateLocalAngle token s =
     s\<lparr>jointAngles :=
         set_angle j
           (if d = 1 then min (get_angle j (jointAngles s) + 10) (maxBound j)
            else max (get_angle j (jointAngles s) - 10) (minBound j))
           (jointAngles s)\<rparr> \<and>
   (minBound j \<le> get_angle j (jointAngles s) \<and> get_angle j (jointAngles s) \<le> maxBound j \<longrightarrow>
      get_angle j (jointAngles (updateLocalAngle token s)) =
        clamp (get_angle j (jointAngles s) + d * 10) (minBound j) (maxBound j))"
  by (drule token_table_cases, elim disjE conjE; hypsubst;
      simp add: updateLocalAngle_token updateAngleDisplay_def clamp_def max.commute)

theorem token_update_witness:
  "(''C'', Shoulder, 1) \<in> set token_table \<and>
   minBound Shoulder \<le> get_angle Shoulder (jointAngles initial) \<and>
   get_angle Shoulder (jointAngles initial) \<le> maxBound Shoulder \<and>
   get_angle Shoulder (jointAngles (updateLocalAngle ''C'' initial)) = 140 \<and>
   clamp (130 + 1 * 10) 120 210 = 140"
proof -
  have h: "(''C'', Shoulder, 1) \<in> set token_table" by (simp add: token_table_def)
  from token_update [OF h, of initial] h show ?thesis
    by (simp add: initial_def initialAngles_def clamp_def)
qed

text \<open>
  The claim as stated fails after Home: the shoulder is then at 90, the token \<open>C\<close>
  stores 100, and 100 clamped to the shoulder's bounds is 120.
\<close>

theorem token_not_clamped_after_home:
  "get_angle Shoulder (jointAngles (moveToHome calm linked)) = 90 \<and>
   get_angle Shoulder (jointAngles (updateLocalAngle ''C'' (moveToHome calm linked))) = 100 \<and>
   clamp (get_angle Shoulder (jointAngles (moveToHome calm linked)) + 10)
     (minBound Shoulder) (maxBound Shoulder) = 120"
  by (simp add: updateLocalAngle_token moveToHome_angles clamp_def)

subsection \<open>The Home sequence\<close>

text \<open>
  C2. From every state and whatever the transport and the link do on the way, the Home
  sequence (and Reset, which runs it) ends with every joint at exactly 90: the five
  stores after the loop overwrite what the steps computed.
\<close>

theorem home_ends_at_90:
  "jointAngles (moveToHome env s) = \<lparr>base = 90, shoulder = 90, elbow = 90, wrist = 90, gripper = 90\<rparr> \<and>
   jointAngles (resetAll env s) = \<lparr>base = 90, shoulder = 90, elbow = 90, wrist = 90, gripper = 90\<rparr>"
  by (simp add: moveToHome_angles resetAll_def)

theorem home_ends_at_90_witness:
  "jointAngles (moveToHome first_write_fails linked) =
     \<lparr>base = 90, shoulder = 90, elbow = 90, wrist = 90, gripper = 90\<rparr>"
  using home_ends_at_90 [of first_write_fails linked] by simp

subsection \<open>The loops of the presets\<close>

lemma updateLocalAngle_cong:
  "jointAngles (updateLocalAngle c s) = jointAngles (updateLocalAngle c s')"
  if "jointAngles s = jointAngles s'"
proof (cases "c \<in> set tokens")
  case False
  then show ?thesis using that by (simp add: updateLocalAngle_other)
next
  case True
  then have "c = ''A'' \<or> c = ''B'' \<or> c = ''C'' \<or> c = ''D'' \<or> c = ''E'' \<or>
             c = ''F'' \<or> c = ''G'' \<or> c = ''H'' \<or> c = ''I'' \<or> c = ''J''"
    by (simp add: set_tokens)
  then show ?thesis using that
    by (elim disjE; hypsubst; simp add: updateLocalAngle_token)
qed

lemma apply_all_cong:
  "jointAngles s = jointAngles s' \<Longrightarrow> jointAngles (apply_all cs s) = jointAngles (apply_all cs s')"
proof (induction cs arbitrary: s s')
  case Nil
  then show ?case by simp
next
  case (Cons c cs)
  from Cons.prems have "jointAngles (updateLocalAngle c s) = jointAngles (updateLocalAngle c s')"
    by (rule updateLocalAngle_cong)
  then have "jointAngles (apply_all cs (updateLocalAngle c s)) =
             jointAngles (apply_all cs (updateLocalAngle c s'))"
    by (rule Cons.IH)
  then show ?case by simp
qed

lemma repeat_send_flat: "repeat_send env k c n s = for_commands env k (replicate n c) s"
  by (induction n arbitrary: k s) simp_all

lemma for_commands_append:
  "for_commands env k (xs @ ys) s = for_commands env (k + length xs) ys (for_commands env k xs s)"
  by (induction xs arbitrary: k s) simp_all

lemma for_sequence_flat: "for_sequence env k steps s = for_commands env k (expand steps) s"
  by (induction steps arbitrary: k s) (simp_all add: for_commands_append repeat_send_flat)

lemma send_and_wait_no_loss:
  "\<not> lost e \<Longrightarrow> send_and_wait e c s = snd (sendCommand (outcome e) c s)"
  by (simp add: send_and_wait_def delay_def)

lemma sendCommand_ok_angles:
  "device s \<noteq> None \<Longrightarrow> rxCharacteristic s \<Longrightarrow>
   jointAngles (snd (sendCommand WriteOk c s)) = jointAngles (updateLocalAngle c s)"
  by (simp add: sendCommand_ok) (rule updateLocalAngle_cong, simp)

lemma send_and_wait_linked:
  assumes "device s \<noteq> None" "rxCharacteristic s" "\<not> lost e"
  shows "writes (send_and_wait e c s) = writes s @ [c]"
    and "device (send_and_wait e c s) = device s"
    and "rxCharacteristic (send_and_wait e c s)"
    and "jointAngles (send_and_wait e c s) =
          (if outcome e = WriteOk then jointAngles (updateLocalAngle c s) else jointAngles s)"
proof -
  have eq: "send_and_wait e c s = snd (sendCommand (outcome e) c s)"
    using assms(3) by (rule send_and_wait_no_loss)
  show "writes (send_and_wait e c s) = writes s @ [c]"
    unfolding eq using assms(1,2)
    by (cases "outcome e") (simp_all add: sendCommand_ok sendCommand_error)
  show "device (send_and_wait e c s) = device s"
    unfolding eq using assms(1,2)
    by (cases "outcome e") (simp_all add: sendCommand_ok sendCommand_error)
  show "rxCharacteristic (send_and_wait e c s)"
    unfolding eq using assms(1,2)
    by (cases "outcome e") (simp_all add: sendCommand_ok sendCommand_error)
  show "jointAngles (send_and_wait e c s) =
          (if outcome e = WriteOk then jointAngles (updateLocalAngle c s) else jointAngles s)"
    unfolding eq using assms(1,2)
    by (cases "outcome e") (simp_all add: sendCommand_ok_angles sendCommand_error)
qed

lemma for_commands_linked:
  "device s \<noteq> None \<Longrightarrow> rxCharacteristic s \<Longrightarrow> (\<forall>k. \<not> lost (env k)) \<Longrightarrow>
   writes (for_commands env k cs s) = writes s @ cs \<and>
   jointAngles (for_commands env k cs s) = jointAngles (apply_all (accepted env k cs) s) \<and>
   device (for_commands env k cs s) = device s \<and>
   rxCharacteristic (for_commands env k cs s)"
proof (induction cs arbitrary: k s)
  case Nil
  then show ?case by simp
next
  case (Cons c cs)
  let ?s1 = "send_and_wait (env k) c s"
  have nl: "\<not> lost (env k)" using Cons.prems(3) by blast
  note sw = send_and_wait_linked [OF Cons.prems(1) Cons.prems(2) nl, of c]
  have d1: "device ?s1 \<noteq> None" using sw(2) Cons.prems(1) by simp
  note ih = Cons.IH [OF d1 sw(3) Cons.prems(3), of "Suc k"]
  have "jointAngles (apply_all (accepted env (Suc k) cs) ?s1) =
        jointAngles (apply_all (accepted env k (c # cs)) s)"
  proof (cases "outcome (env k) = WriteOk")
    case True
    then have "jointAngles ?s1 = jointAngles (updateLocalAngle c s)" using sw(4) by simp
    then have "jointAngles (apply_all (accepted env (Suc k) cs) ?s1) =
               jointAngles (apply_all (accepted env (Suc k) cs) (updateLocalAngle c s))"
      by (rule apply_all_cong)
    then show ?thesis using True by simp
  next
    case False
    then have "jointAngles ?s1 = jointAngles s" using sw(4) by simp
    then have "jointAngles (apply_all (accepted env (Suc k) cs) ?s1) =
               jointAngles (apply_all (accepted env (Suc k) cs) s)"
      by (rule apply_all_cong)
    then show ?thesis using False by simp
  qed
  with ih sw(1,2) show ?case by simp
qed



lemma expand_grab:
  "expand grab_sequence = [''D'', ''D'', ''D'', ''E'', ''E'', ''J'', ''J'', ''J'', ''J'', ''J'']"
  by (simp add: grab_sequence_def numeral_eq_Suc)

lemma expand_reach:
  "expand reach_sequence =
     [''C'', ''C'', ''C'', ''C'', ''E'', ''E'', ''E'', ''G'', ''G'', ''I'', ''I'', ''I'']"
  by (simp add: reach_sequence_def numeral_eq_Suc)

lemma first_write_fails_simps:
  "outcome (first_write_fails 0) = WriteError ''GATT operation failed''"
  "outcome (first_write_fails (Suc n)) = WriteOk"
  "lost (first_write_fails k) = False"
  by (simp_all add: first_write_fails_def)

lemma for_commands_linked_log:
  assumes "device s \<noteq> None" "rxCharacteristic s" "\<forall>k. \<not> lost (env k)"
  shows "writes (for_commands env 0 cs (addLog m t s)) = writes s @ cs"
    and "jointAngles (for_commands env 0 cs (addLog m t s)) =
         jointAngles (apply_all (accepted env 0 cs) s)"
proof -
  have d: "device (addLog m t s) \<noteq> None" and r: "rxCharacteristic (addLog m t s)"
    using assms(1,2) by simp_all
  note fc = for_commands_linked [OF d r assms(3), of 0 cs]
  from fc show "writes (for_commands env 0 cs (addLog m t s)) = writes s @ cs" by simp
  have "jointAngles (apply_all (accepted env 0 cs) (addLog m t s)) =
        jointAngles (apply_all (accepted env 0 cs) s)"
    by (rule apply_all_cong) simp
  with fc show "jointAngles (for_commands env 0 cs (addLog m t s)) =
         jointAngles (apply_all (accepted env 0 cs) s)" by simp
qed

lemma send_and_wait_linked_console:
  assumes "device s \<noteq> None" "rxCharacteristic s" "\<not> lost e"
  shows "console (send_and_wait e c s) = console s @ [log_entry (outcome e) c]"
proof -
  have eq: "send_and_wait e c s = snd (sendCommand (outcome e) c s)"
    using assms(3) by (rule send_and_wait_no_loss)
  show ?thesis
    unfolding eq using assms(1,2)
    by (cases "outcome e") (auto simp: sendCommand_def)
qed

lemma for_commands_linked_console:
  "device s \<noteq> None \<Longrightarrow> rxCharacteristic s \<Longrightarrow> (\<forall>k. \<not> lost (env k)) \<Longrightarrow>
   console (for_commands env k cs s) = console s @ sent_log env k cs"
proof (induction cs arbitrary: k s)
  case Nil
  then show ?case by simp
next
  case (Cons c cs)
  let ?s1 = "send_and_wait (env k) c s"
  have nl: "\<not> lost (env k)" using Cons.prems(3) by blast
  note sw = send_and_wait_linked [OF Cons.prems(1) Cons.prems(2) nl, of c]
  have d1: "device ?s1 \<noteq> None" using sw(2) Cons.prems(1) by simp
  have "console (for_commands env (Suc k) cs ?s1) = console ?s1 @ sent_log env (Suc k) cs"
    using d1 sw(3) Cons.prems(3) by (rule Cons.IH)
  moreover have "console ?s1 = console s @ [log_entry (outcome (env k)) c]"
    using Cons.prems(1) Cons.prems(2) nl by (rule send_and_wait_linked_console)
  ultimately show ?case by simp
qed

lemma for_commands_linked_log_console:
  assumes "device s \<noteq> None" "rxCharacteristic s" "\<forall>k. \<not> lost (env k)"
  shows "console (for_commands env 0 cs (addLog m t s)) = console s @ (m, t) # sent_log env 0 cs"
proof -
  have d: "device (addLog m t s) \<noteq> None" and r: "rxCharacteristic (addLog m t s)"
    using assms(1,2) by simp_all
  from for_commands_linked_console [OF d r assms(3), of 0 cs] show ?thesis by simp
qed

text \<open>
  C6 (as amended). A failed dispatch does not stop a preset. For a preset that runs by
  itself on a connected controller whose link stays up: Grab, Reach and Home hand every
  one of their commands to the transport, in order, whichever writes are rejected. The
  log gets the opening line of the preset, then one entry per command, \<open>Sent command\<close>
  for an accepted write and \<open>Error sending command\<close> with the transport's message for a
  rejected one, and then the line that the position is reached: a failure is logged
  and nothing else. Nothing is rolled back: after Grab and Reach the joint model is the
  one before the preset with exactly the accepted tokens applied, in order; after Home
  every joint is at 90.
\<close>

theorem preset_continues_after_failure:
  assumes "device s \<noteq> None" and "rxCharacteristic s" and "\<forall>k. \<not> lost (env k)"
  shows
   "writes (moveToGrab env s) = writes s @ expand grab_sequence \<and>
    jointAngles (moveToGrab env s) = jointAngles (apply_all (accepted env 0 (expand grab_sequence)) s) \<and>
    console (moveToGrab env s) =
      console s @ (''Moving to GRAB position...'', Info) # sent_log env 0 (expand grab_sequence) @
      [(''Reached GRAB position'', Success)] \<and>
    writes (moveToReach env s) = writes s @ expand reach_sequence \<and>
    jointAngles (moveToReach env s) = jointAngles (apply_all (accepted env 0 (expand reach_sequence)) s) \<and>
    console (moveToReach env s) =
      console s @ (''Moving to REACH position...'', Info) # sent_log env 0 (expand reach_sequence) @
      [(''Reached REACH position'', Success)] \<and>
    writes (moveToHome env s) = writes s @ home_commands \<and>
    jointAngles (moveToHome env s) =
      \<lparr>base = 90, shoulder = 90, elbow = 90, wrist = 90, gripper = 90\<rparr> \<and>
    console (moveToHome env s) =
      console s @ (''Moving to HOME position...'', Info) # sent_log env 0 home_commands @
      [(''Reached HOME position'', Success)]"
proof -
  note w = for_commands_linked_log(1) [OF assms]
  note a = for_commands_linked_log(2) [OF assms]
  note c = for_commands_linked_log_console [OF assms]
  have grab: "writes (moveToGrab env s) = writes s @ expand grab_sequence"
    "jointAngles (moveToGrab env s) = jointAngles (apply_all (accepted env 0 (expand grab_sequence)) s)"
    "console (moveToGrab env s) =
      console s @ (''Moving to GRAB position...'', Info) # sent_log env 0 (expand grab_sequence) @
      [(''Reached GRAB position'', Success)]"
    by (simp_all add: moveToGrab_def for_sequence_flat w a c)
  have reach: "writes (moveToReach env s) = writes s @ expand reach_sequence"
    "jointAngles (moveToReach env s) = jointAngles (apply_all (accepted env 0 (expand reach_sequence)) s)"
    "console (moveToReach env s) =
      console s @ (''Moving to REACH position...'', Info) # sent_log env 0 (expand reach_sequence) @
      [(''Reached REACH position'', Success)]"
    by (simp_all add: moveToReach_def for_sequence_flat w a c)
  have home: "writes (moveToHome env s) = writes s @ home_commands"
    "console (moveToHome env s) =
      console s @ (''Moving to HOME position...'', Info) # sent_log env 0 home_commands @
      [(''Reached HOME position'', Success)]"
    by (simp_all add: moveToHome_def w c)
  from grab reach home moveToHome_angles [of env s] show ?thesis by simp
qed

theorem preset_continues_after_failure_witness:
  "outcome (first_write_fails 0) = WriteError ''GATT operation failed'' \<and>
   writes (moveToGrab first_write_fails linked) =
     [''D'', ''D'', ''D'', ''E'', ''E'', ''J'', ''J'', ''J'', ''J'', ''J''] \<and>
   jointAngles (moveToGrab first_write_fails linked) =
     \<lparr>base = 90, shoulder = 120, elbow = 110, wrist = 90, gripper = 40\<rparr> \<and>
   console (moveToGrab first_write_fails linked) =
     console linked @
     [(''Moving to GRAB position...'', Info),
      (''Error sending command: GATT operation failed'', Error),
      (''Sent command: D'', Success), (''Sent command: D'', Success),
      (''Sent command: E'', Success), (''Sent command: E'', Success),
      (''Sent command: J'', Success), (''Sent command: J'', Success),
      (''Sent command: J'', Success), (''Sent command: J'', Success),
      (''Sent command: J'', Success),
      (''Reached GRAB position'', Success)]"
proof -
  have d: "device linked \<noteq> None" by (simp add: linked_fields)
  have r: "rxCharacteristic linked" by (simp add: linked_fields)
  have l: "\<forall>k. \<not> lost (first_write_fails k)" by (simp add: first_write_fails_simps)
  note t = preset_continues_after_failure [OF d r l]
  have w: "writes (moveToGrab first_write_fails linked) =
     [''D'', ''D'', ''D'', ''E'', ''E'', ''J'', ''J'', ''J'', ''J'', ''J'']"
    using t by (simp add: expand_grab linked_fields)
  have "jointAngles (moveToGrab first_write_fails linked) =
     jointAngles (apply_all (accepted first_write_fails 0 (expand grab_sequence)) linked)"
    using t by blast
  also have "\<dots> = \<lparr>base = 90, shoulder = 120, elbow = 110, wrist = 90, gripper = 40\<rparr>"
    by (simp add: expand_grab first_write_fails_simps updateLocalAngle_token linked_fields
        initialAngles_def)
  finally have a: "jointAngles (moveToGrab first_write_fails linked) =
     \<lparr>base = 90, shoulder = 120, elbow = 110, wrist = 90, gripper = 40\<rparr>" .
  have "console (moveToGrab first_write_fails linked) =
      console linked @ (''Moving to GRAB position...'', Info) #
      sent_log first_write_fails 0 (expand grab_sequence) @ [(''Reached GRAB position'', Success)]"
    using t by blast
  then have c: "console (moveToGrab first_write_fails linked) =
     console linked @
     [(''Moving to GRAB position...'', Info),
      (''Error sending command: GATT operation failed'', Error),
      (''Sent command: D'', Success), (''Sent command: D'', Success),
      (''Sent command: E'', Success), (''Sent command: E'', Success),
      (''Sent command: J'', Success), (''Sent command: J'', Success),
      (''Sent command: J'', Success), (''Sent command: J'', Success),
      (''Sent command: J'', Success),
      (''Reached GRAB position'', Success)]"
    by (simp add: expand_grab first_write_fails_simps)
  have "(''Error sending command: GATT operation failed'', Error) \<in>
      set (console (snd (sendCommand (outcome (first_write_fails 0)) ''D'' linked)))"
    by (simp add: sendCommand_def first_write_fails_simps linked_fields)
  with w a c show ?thesis by (simp add: first_write_fails_simps)
qed

text \<open>
  The claim as stated fails: the first write of Grab is rejected, and the nine steps
  after it are dispatched all the same, up to the log entry of success.
\<close>

theorem preset_not_stopped_by_failure:
  "outcome (first_write_fails 0) = WriteError ''GATT operation failed'' \<and>
   writes (moveToGrab first_write_fails linked) =
     [''D'', ''D'', ''D'', ''E'', ''E'', ''J'', ''J'', ''J'', ''J'', ''J''] \<and>
   last (console (moveToGrab first_write_fails linked)) = (''Reached GRAB position'', Success)"
proof -
  have d: "device linked \<noteq> None" by (simp add: linked_fields)
  have r: "rxCharacteristic linked" by (simp add: linked_fields)
  have l: "\<forall>k. \<not> lost (first_write_fails k)" by (simp add: first_write_fails_simps)
  have "writes (for_commands first_write_fails 0 (expand grab_sequence)
            (addLog ''Moving to GRAB position...'' Info linked)) = writes linked @ expand grab_sequence"
    using d r l by (rule for_commands_linked_log(1))
  then have "writes (moveToGrab first_write_fails linked) = expand grab_sequence"
    by (simp add: moveToGrab_def for_sequence_flat linked_fields)
  then show ?thesis
    by (simp add: expand_grab first_write_fails_simps moveToGrab_def)
qed


subsection \<open>Disconnection\<close>




subsection \<open>The bounds as an invariant\<close>

lemma token_cases:
  "c \<in> set tokens \<Longrightarrow>
   c = ''A'' \<or> c = ''B'' \<or> c = ''C'' \<or> c = ''D'' \<or> c = ''E'' \<or>
   c = ''F'' \<or> c = ''G'' \<or> c = ''H'' \<or> c = ''I'' \<or> c = ''J''"
  by (simp add: set_tokens)

lemma updateLocalAngle_within_bounds:
  assumes "within_bounds (jointAngles s)"
  shows "within_bounds (jointAngles (updateLocalAngle c s))"
proof (cases "c \<in> set tokens")
  case False
  then show ?thesis using assms by (simp add: updateLocalAngle_other)
next
  case True
  then show ?thesis using assms
    by (elim token_cases [THEN disjE] disjE; hypsubst;
        simp add: updateLocalAngle_token within_bounds_def)
qed

lemma updateLocalAngle_within_home_bounds:
  assumes "within_home_bounds (jointAngles s)"
  shows "within_home_bounds (jointAngles (updateLocalAngle c s))"
proof (cases "c \<in> set tokens")
  case False
  then show ?thesis using assms by (simp add: updateLocalAngle_other)
next
  case True
  then show ?thesis using assms
    by (elim token_cases [THEN disjE] disjE; hypsubst;
        simp add: updateLocalAngle_token within_home_bounds_def)
qed

lemma connectDevice_angles [simp]: "jointAngles (connectDevice r s) = jointAngles s"
  by (cases r) (simp_all add: connectDevice_def connect_failed_def updateConnectionStatus_def
      characteristic_found_def service_found_def gatt_up_def found_device_def)

lemma disconnectDevice_angles [simp]: "jointAngles (disconnectDevice s) = jointAngles s"
  by (simp add: disconnectDevice_def)

lemma sendCommand_angles:
  "jointAngles (snd (sendCommand w c s)) = jointAngles s \<or>
   jointAngles (snd (sendCommand w c s)) = jointAngles (updateLocalAngle c s)"
proof (cases "device s = None \<or> \<not> rxCharacteristic s")
  case True
  then show ?thesis by (simp add: sendCommand_not_connected)
next
  case False
  then have d: "device s \<noteq> None" and r: "rxCharacteristic s" by simp_all
  show ?thesis
  proof (cases w)
    case WriteOk
    then show ?thesis using sendCommand_ok_angles [OF d r] by simp
  next
    case (WriteError msg)
    then show ?thesis using sendCommand_error [OF d r] by simp
  qed
qed

text \<open>A property of the joint angles that every token keeps is kept by everything but
  the stores at the end of Home.\<close>

lemma sendCommand_keeps:
  assumes step: "\<And>c s. Q (jointAngles s) \<Longrightarrow> Q (jointAngles (updateLocalAngle c s))"
    and "Q (jointAngles s)"
  shows "Q (jointAngles (snd (sendCommand w c s)))"
  using sendCommand_angles [of w c s] assms(2) step [of s c] by auto

lemma send_and_wait_keeps:
  assumes step: "\<And>c s. Q (jointAngles s) \<Longrightarrow> Q (jointAngles (updateLocalAngle c s))"
    and "Q (jointAngles s)"
  shows "Q (jointAngles (send_and_wait e c s))"
  using sendCommand_keeps [of Q s "outcome e" c, OF step assms(2)]
  by (simp add: send_and_wait_def delay_def)

lemma for_commands_keeps:
  assumes step: "\<And>c s. Q (jointAngles s) \<Longrightarrow> Q (jointAngles (updateLocalAngle c s))"
  shows "Q (jointAngles s) \<Longrightarrow> Q (jointAngles (for_commands env k cs s))"
proof (induction cs arbitrary: k s)
  case Nil
  then show ?case by simp
next
  case (Cons c cs)
  have "Q (jointAngles (send_and_wait (env k) c s))"
    using step Cons.prems by (rule send_and_wait_keeps)
  then show ?case using Cons.IH by simp
qed

lemma keydown_keeps:
  assumes step: "\<And>c s. Q (jointAngles s) \<Longrightarrow> Q (jointAngles (updateLocalAngle c s))"
    and "Q (jointAngles s)"
  shows "Q (jointAngles (keydown w key s))"
  using sendCommand_keeps [of Q s w, OF step assms(2)] assms(2)
  by (simp add: keydown_def split: option.splits)

lemma perform_keeps:
  assumes step: "\<And>c s. Q (jointAngles s) \<Longrightarrow> Q (jointAngles (updateLocalAngle c s))"
    and "Q (jointAngles s)" and "\<not> runs_home a"
  shows "Q (jointAngles (perform a s))"
proof (cases a)
  case (ClickJoint c w)
  then show ?thesis using sendCommand_keeps [of Q s w c, OF step assms(2)] by simp
next
  case (KeyDown key w)
  then show ?thesis using keydown_keeps [of Q s w key, OF step assms(2)] by simp
next
  case (PresetGrab env)
  have "Q (jointAngles (addLog ''Moving to GRAB position...'' Info s))" using assms(2) by simp
  with step have "Q (jointAngles (for_commands env 0 (expand grab_sequence)
      (addLog ''Moving to GRAB position...'' Info s)))" by (rule for_commands_keeps)
  then show ?thesis using PresetGrab by (simp add: moveToGrab_def for_sequence_flat)
next
  case (PresetReach env)
  have "Q (jointAngles (addLog ''Moving to REACH position...'' Info s))" using assms(2) by simp
  with step have "Q (jointAngles (for_commands env 0 (expand reach_sequence)
      (addLog ''Moving to REACH position...'' Info s)))" by (rule for_commands_keeps)
  then show ?thesis using PresetReach by (simp add: moveToReach_def for_sequence_flat)
qed (use assms(2,3) in simp_all)

lemma within_home_bounds_90:
  "within_home_bounds \<lparr>base = 90, shoulder = 90, elbow = 90, wrist = 90, gripper = 90\<rparr>"
  by (simp add: within_home_bounds_def)

lemma perform_within_home_bounds:
  assumes "within_home_bounds (jointAngles s)"
  shows "within_home_bounds (jointAngles (perform a s))"
proof (cases "runs_home a")
  case False
  with updateLocalAngle_within_home_bounds assms show ?thesis by (rule perform_keeps)
next
  case True
  then show ?thesis
    by (cases a) (simp_all add: moveToHome_angles resetAll_def within_home_bounds_90)
qed

lemma run_within_home_bounds:
  "within_home_bounds (jointAngles s) \<Longrightarrow> within_home_bounds (jointAngles (run acts s))"
  by (induction acts arbitrary: s) (simp_all add: perform_within_home_bounds)

lemma run_within_bounds:
  "within_bounds (jointAngles s) \<Longrightarrow> list_all (\<lambda>a. \<not> runs_home a) acts \<Longrightarrow>
   within_bounds (jointAngles (run acts s))"
proof (induction acts arbitrary: s)
  case Nil
  then show ?case by simp
next
  case (Cons a acts)
  from Cons.prems have nh: "\<not> runs_home a" and rest: "list_all (\<lambda>a. \<not> runs_home a) acts"
    by simp_all
  from updateLocalAngle_within_bounds Cons.prems(1) nh
  have "within_bounds (jointAngles (perform a s))" by (rule perform_keeps)
  then show ?case using Cons.IH rest by simp
qed

lemma within_bounds_home: "within_bounds a \<Longrightarrow> within_home_bounds a"
  by (simp add: within_bounds_def within_home_bounds_def)

text \<open>
  C1 (as amended). From a state whose angles are within the bounds of section 3, after
  any sequence of the controller's operations (joint buttons, keys, the presets, Reset,
  connecting and disconnecting), base, elbow, wrist and gripper are within their bounds
  and the shoulder is within 90 to 210. As long as no Home sequence has run (neither
  the Home nor the Reset preset), the shoulder is within its bounds 120 to 210 as well.
\<close>

theorem angles_stay_bounded:
  assumes "within_bounds (jointAngles s)"
  shows
   "(\<forall>j. j \<noteq> Shoulder \<longrightarrow>
       minBound j \<le> get_angle j (jointAngles (run acts s)) \<and>
       get_angle j (jointAngles (run acts s)) \<le> maxBound j) \<and>
    90 \<le> get_angle Shoulder (jointAngles (run acts s)) \<and>
    get_angle Shoulder (jointAngles (run acts s)) \<le> maxBound Shoulder \<and>
    (list_all (\<lambda>a. \<not> runs_home a) acts \<longrightarrow> within_bounds (jointAngles (run acts s)))"
proof -
  have "within_home_bounds (jointAngles (run acts s))"
    using assms by (intro run_within_home_bounds within_bounds_home)
  then have "(\<forall>j. j \<noteq> Shoulder \<longrightarrow>
       minBound j \<le> get_angle j (jointAngles (run acts s)) \<and>
       get_angle j (jointAngles (run acts s)) \<le> maxBound j) \<and>
    90 \<le> get_angle Shoulder (jointAngles (run acts s)) \<and>
    get_angle Shoulder (jointAngles (run acts s)) \<le> maxBound Shoulder"
    unfolding within_home_bounds_def
    apply simp
    apply (intro allI impI)
    subgoal for j by (cases j) simp_all
    done
  then show ?thesis using run_within_bounds [OF assms] by blast
qed

theorem angles_stay_bounded_witness:
  "within_bounds (jointAngles linked) \<and>
   within_bounds (jointAngles (run [ClickJoint ''D'' WriteOk, PresetGrab first_write_fails] linked)) \<and>
   90 \<le> get_angle Shoulder (jointAngles (run [PresetHome calm, ClickJoint ''C'' WriteOk] linked))"
proof -
  have h: "within_bounds (jointAngles linked)"
    by (simp add: within_bounds_def linked_fields initialAngles_def)
  have nh: "list_all (\<lambda>a. \<not> runs_home a) [ClickJoint ''D'' WriteOk, PresetGrab first_write_fails]"
    by simp
  from angles_stay_bounded [OF h, of "[ClickJoint ''D'' WriteOk, PresetGrab first_write_fails]"] nh
  have "within_bounds (jointAngles (run [ClickJoint ''D'' WriteOk, PresetGrab first_write_fails] linked))"
    by blast
  moreover from angles_stay_bounded [OF h, of "[PresetHome calm, ClickJoint ''C'' WriteOk]"]
  have "90 \<le> get_angle Shoulder (jointAngles (run [PresetHome calm, ClickJoint ''C'' WriteOk] linked))"
    by blast
  ultimately show ?thesis using h by blast
qed

text \<open>
  The claim as stated fails: Home stores 90 into the shoulder, below its lower bound
  of 120.
\<close>

theorem home_leaves_shoulder_bounds:
  "within_bounds (jointAngles linked) \<and>
   get_angle Shoulder (jointAngles (run [PresetHome calm] linked)) = 90 \<and>
   minBound Shoulder = 120 \<and>
   \<not> within_bounds (jointAngles (run [PresetHome calm] linked))"
  by (simp add: within_bounds_def linked_fields initialAngles_def moveToHome_angles)

end
